theory Spec2Isabelle
  imports Main "HOL-Library.Sublist" "HOL-Library.AList" "HOL-Library.Multiset" "HOL-Library.List_Lexorder" "HOL-Library.Product_Lexorder"
begin

section \<open>Python values\<close>

text \<open>
  A Python \<open>str\<close> is a sequence of Unicode code points; \<open>len\<close> counts code points
  and comparison is lexicographic on them. A string is modelled as the list of its code
  points, and \<open>str\<close> turns an ASCII literal into one.
\<close>

type_synonym pystr = "nat list"

definition str :: "string \<Rightarrow> pystr" where
  "str s = map of_char s"

text \<open>
  \<open>str.isspace\<close> of one code point; the regular-expression class \<open>\s\<close> of a
  \<open>str\<close> pattern is the same set.
\<close>

definition isspace :: "nat \<Rightarrow> bool" where
  "isspace c \<longleftrightarrow>
     (9 \<le> c \<and> c \<le> 13) \<or> (28 \<le> c \<and> c \<le> 32) \<or> c = 133 \<or> c = 160 \<or> c = 5760 \<or>
     (8192 \<le> c \<and> c \<le> 8202) \<or> c = 8232 \<or> c = 8233 \<or> c = 8239 \<or> c = 8287 \<or>
     c = 12288"

text \<open>\<open>s.strip()\<close>: leading and trailing whitespace removed.\<close>

definition strip :: "pystr \<Rightarrow> pystr" where
  "strip s = rev (dropWhile isspace (rev (dropWhile isspace s)))"

text \<open>
  \<open>s.split()\<close> with no separator: the maximal runs of non-whitespace, in order.
  \<open>split_from w s\<close> scans \<open>s\<close> with the word \<open>w\<close> read so far.
\<close>

fun split_from :: "pystr \<Rightarrow> pystr \<Rightarrow> pystr list" where
  "split_from w [] = (if w = [] then [] else [w])"
| "split_from w (c # cs) =
     (if isspace c then (if w = [] then split_from [] cs else w # split_from [] cs)
      else split_from (w @ [c]) cs)"

definition split :: "pystr \<Rightarrow> pystr list" where
  "split s = split_from [] s"

text \<open>\<open>sep.join(ws)\<close>.\<close>

fun join :: "pystr \<Rightarrow> pystr list \<Rightarrow> pystr" where
  "join sep [] = []"
| "join sep [w] = w"
| "join sep (w # v # ws) = w @ sep @ join sep (v # ws)"

text \<open>\<open>t in s\<close> for strings: \<open>t\<close> occurs in \<open>s\<close> as a contiguous substring.\<close>

primrec contains :: "pystr \<Rightarrow> pystr \<Rightarrow> bool" where
  "contains [] t = (t = [])"
| "contains (c # cs) t = (prefix t (c # cs) \<or> contains cs t)"

text \<open>
  \<open>s[:k]\<close> for an integer \<open>k\<close>: the first \<open>k\<close> items, and for a negative \<open>k\<close>
  all but the last \<open>-k\<close>.
\<close>

definition slice_to :: "'a list \<Rightarrow> int \<Rightarrow> 'a list" where
  "slice_to xs k = (if 0 \<le> k then take (nat k) xs else take (nat (int (length xs) + k)) xs)"

text \<open>
  The exceptions of the modelled code paths. A function that can raise returns
  \<open>exn + 'a\<close>, with \<open>Inl\<close> the exception that leaves it.
\<close>

datatype exn = AttributeError | TypeError | ValueError | OverflowError | OSError

text \<open>
  What \<open>json.loads\<close> returns: \<open>None\<close>, a bool, an int, a str, a list or a dict. A dict is
  the list of its items in insertion order (its keys are distinct). Numbers with a
  fraction or an exponent (Python floats) are outside the model.
\<close>

datatype json =
    JNull
  | JBool bool
  | JInt int
  | JStr pystr
  | JArr "json list"
  | JObj "(pystr \<times> json) list"

text \<open>\<open>d.get(k, default)\<close> and \<open>d.get(k)\<close>, whose default is \<open>None\<close>.\<close>

definition get_default :: "(pystr \<times> json) list \<Rightarrow> pystr \<Rightarrow> json \<Rightarrow> json" where
  "get_default d k dflt = (case map_of d k of None \<Rightarrow> dflt | Some v \<Rightarrow> v)"

definition get :: "(pystr \<times> json) list \<Rightarrow> pystr \<Rightarrow> json" where
  "get d k = get_default d k JNull"

text \<open>Truth value of an object, as \<open>if x\<close>, \<open>not x\<close> and \<open>all([...])\<close> test it.\<close>

fun truthy :: "json \<Rightarrow> bool" where
  "truthy JNull = False"
| "truthy (JBool b) = b"
| "truthy (JInt n) = (n \<noteq> 0)"
| "truthy (JStr s) = (s \<noteq> [])"
| "truthy (JArr xs) = (xs \<noteq> [])"
| "truthy (JObj kvs) = (kvs \<noteq> [])"

section \<open>Regular expressions\<close>

text \<open>
  The fragment of Python's \<open>re\<close> that the two patterns of \<open>parse_user_message\<close> use:
  a character class, concatenation, a greedy optional group, a greedy star over a
  character class and a negative lookahead. \<open>rx_match r s k\<close> matches \<open>r\<close> at the start
  of \<open>s\<close> and hands the rest of the input to the continuation \<open>k\<close>; alternatives are
  tried in the order of the backtracking matcher, the first success wins.
\<close>

datatype rx =
    Cls "nat \<Rightarrow> bool"
  | Seq rx rx
  | Opt rx
  | Star "nat \<Rightarrow> bool"
  | NotAhead rx

fun star_greedy :: "(nat \<Rightarrow> bool) \<Rightarrow> pystr \<Rightarrow> (pystr \<Rightarrow> pystr option) \<Rightarrow> pystr option" where
  "star_greedy P [] k = k []"
| "star_greedy P (c # cs) k =
     (if P c then (case star_greedy P cs k of Some r \<Rightarrow> Some r | None \<Rightarrow> k (c # cs))
      else k (c # cs))"

primrec rx_match :: "rx \<Rightarrow> pystr \<Rightarrow> (pystr \<Rightarrow> pystr option) \<Rightarrow> pystr option" where
  "rx_match (Cls P) s k = (case s of [] \<Rightarrow> None | c # cs \<Rightarrow> if P c then k cs else None)"
| "rx_match (Seq a b) s k = rx_match a s (\<lambda>r. rx_match b r k)"
| "rx_match (Opt a) s k = (case rx_match a s k of Some r \<Rightarrow> Some r | None \<Rightarrow> k s)"
| "rx_match (Star P) s k = star_greedy P s k"
| "rx_match (NotAhead a) s k = (case rx_match a s Some of None \<Rightarrow> k s | Some r \<Rightarrow> None)"

text \<open>
  \<open>re.findall(r, s)\<close>: the matches of \<open>r\<close> in \<open>s\<close>, scanning from left to right, each
  search starting where the previous match ended. The program only takes the length of
  the result, so the model lists the matched texts rather than their first groups. Both
  patterns of the program match at least two characters; the branch for an empty match
  (record it, move on by one character) is never taken for them.
\<close>

fun findall :: "rx \<Rightarrow> pystr \<Rightarrow> pystr list" where
  "findall r [] = []"
| "findall r (c # cs) =
     (case rx_match r (c # cs) Some of
        None \<Rightarrow> findall r cs
      | Some rest \<Rightarrow>
          if length rest < length (c # cs)
          then take (length (c # cs) - length rest) (c # cs) # findall r rest
          else [] # findall r cs)"

definition chr :: "char \<Rightarrow> rx" where
  "chr c = Cls (\<lambda>x. x = of_char c)"

definition ascii_letter :: "nat \<Rightarrow> bool" where
  "ascii_letter c \<longleftrightarrow> (97 \<le> c \<and> c \<le> 122) \<or> (65 \<le> c \<and> c \<le> 90)"

definition name_char :: "nat \<Rightarrow> bool" where
  "name_char c \<longleftrightarrow> (97 \<le> c \<and> c \<le> 122) \<or> (65 \<le> c \<and> c \<le> 90) \<or> (48 \<le> c \<and> c \<le> 57) \<or> c = 45"

text \<open>\<^verbatim>\<open><([a-zA-Z][a-zA-Z0-9-]*)(?:\s[^>]*)?>(?!</)\<close>\<close>

definition open_tag_rx :: rx where
  "open_tag_rx =
     Seq (chr CHR ''<'') (Seq (Cls ascii_letter) (Seq (Star name_char)
       (Seq (Opt (Seq (Cls isspace) (Star (\<lambda>c. c \<noteq> 62))))
         (Seq (chr CHR ''>'') (NotAhead (Seq (chr CHR ''<'') (chr CHR ''/'')))))))"

text \<open>\<^verbatim>\<open></([a-zA-Z][a-zA-Z0-9-]*)>\<close>\<close>

definition close_tag_rx :: rx where
  "close_tag_rx =
     Seq (chr CHR ''<'') (Seq (chr CHR ''/'') (Seq (Cls ascii_letter) (Seq (Star name_char)
       (chr CHR ''>''))))"

section \<open>PromptFilter: \<open>parse_user_message\<close>\<close>

definition skip_tags :: "pystr list" where
  "skip_tags = [str ''<command-name>'', str ''<local-command-stdout>'', str ''<system-reminder>'',
     str ''<task-notification>'', str ''<task-id>'', str ''<output-file>'']"

text \<open>
  Lines 114 to 136: the checks on the parsed record, down to the message content.
  \<open>data.get\<close> on a value that is not a dict raises \<open>AttributeError\<close>, which nothing
  in the program catches.
\<close>

definition user_content :: "json \<Rightarrow> exn + pystr option" where
  "user_content data =
     (case data of
        JObj d \<Rightarrow>
          if get d (str ''type'') \<noteq> JStr (str ''user'') then Inr None
          else if truthy (get_default d (str ''isMeta'') (JBool False)) then Inr None
          else
            (case get d (str ''message'') of
               JObj m \<Rightarrow>
                 if m = [] then Inr None
                 else if get m (str ''role'') \<noteq> JStr (str ''user'') then Inr None
                 else (case get m (str ''content'') of
                         JStr content \<Rightarrow> Inr (Some content)
                       | _ \<Rightarrow> Inr None)
             | _ \<Rightarrow> Inr None)
      | _ \<Rightarrow> Inl AttributeError)"

text \<open>
  Lines 138 to 163: the checks on the content and its normalisation, with
  \<open>MAX_PROMPT_CHARS\<close> (an \<open>int\<close> read from the environment) as \<open>cap\<close>.
\<close>

definition clean_prompt :: "int \<Rightarrow> pystr \<Rightarrow> pystr option" where
  "clean_prompt cap content0 =
     (let content = strip content0 in
      if content = [] then None
      else if \<exists>tag \<in> set skip_tags. contains content tag then None
      else if length (findall open_tag_rx content) \<noteq> length (findall close_tag_rx content)
        then None
      else
        let content = join (str '' '') (split content) in
        if int (length content) > cap then Some (slice_to content cap @ str ''...'')
        else Some content)"

text \<open>
  \<open>parse_user_message\<close>, with \<open>json.loads\<close> as \<open>loads\<close> (\<open>None\<close> when it raises
  \<open>JSONDecodeError\<close>).
\<close>

definition parse_user_message ::
  "(pystr \<Rightarrow> json option) \<Rightarrow> int \<Rightarrow> pystr \<Rightarrow> exn + pystr option" where
  "parse_user_message loads cap line =
     (case loads line of
        None \<Rightarrow> Inr None
      | Some data \<Rightarrow>
          (case user_content data of
             Inl e \<Rightarrow> Inl e
           | Inr None \<Rightarrow> Inr None
           | Inr (Some content) \<Rightarrow> Inr (clean_prompt cap content)))"

section \<open>SessionExtractor: \<open>extract_prompts_from_session\<close>\<close>

text \<open>
  A text file as the program meets it: \<open>open\<close> raises \<open>OSError\<close>, or the file opens and
  yields its lines, after which the next read either reports the end of the file or
  raises \<open>OSError\<close> (the flag). The bytes of the file are taken to be valid UTF-8:
  a decoding error is not an \<open>OSError\<close> and is outside the model.
\<close>

datatype text_file = OpenFails | Opened "pystr list" bool

datatype log_record = Warning_failed_to_read | Warning_history_not_found | Error_history_read

text \<open>
  The loop of lines 174 to 180 over the lines not yet read, with the prompts collected so
  far. The test of line 175 runs once a line has been read, so a failing read comes
  before it.
\<close>

fun scan_session ::
  "(pystr \<Rightarrow> json option) \<Rightarrow> int \<Rightarrow> int \<Rightarrow> bool \<Rightarrow> pystr list \<Rightarrow> pystr list \<Rightarrow>
     exn + (pystr list \<times> log_record list)" where
  "scan_session loads cap max_prompts fails prompts [] =
     Inr (prompts, if fails then [Warning_failed_to_read] else [])"
| "scan_session loads cap max_prompts fails prompts (line # rest) =
     (if int (length prompts) \<ge> max_prompts then Inr (prompts, [])
      else
        (case parse_user_message loads cap (strip line) of
           Inl e \<Rightarrow> Inl e
         | Inr None \<Rightarrow> scan_session loads cap max_prompts fails prompts rest
         | Inr (Some prompt) \<Rightarrow>
             if prompt \<noteq> [] then scan_session loads cap max_prompts fails (prompts @ [prompt]) rest
             else scan_session loads cap max_prompts fails prompts rest))"

definition extract_prompts_from_session ::
  "(pystr \<Rightarrow> json option) \<Rightarrow> int \<Rightarrow> text_file \<Rightarrow> int \<Rightarrow> exn + (pystr list \<times> log_record list)" where
  "extract_prompts_from_session loads cap session_file max_prompts =
     (case session_file of
        OpenFails \<Rightarrow> Inr ([], [Warning_failed_to_read])
      | Opened lines fails \<Rightarrow> scan_session loads cap max_prompts fails [] lines)"

section \<open>SessionCache\<close>

text \<open>
  A path is the list of its components, the last one the file name. \<open>Path.stem\<close> is the
  name without its last suffix: the name up to its last dot, when that dot is neither the
  first nor the last character.
\<close>

type_synonym path = "pystr list"

definition rfind :: "pystr \<Rightarrow> nat \<Rightarrow> nat option" where
  "rfind s c =
     (if c \<in> set s then Some (length s - 1 - length (takeWhile (\<lambda>x. x \<noteq> c) (rev s))) else None)"

definition stem :: "path \<Rightarrow> pystr" where
  "stem p =
     (let name = (if p = [] then [] else last p) in
      case rfind name 46 of
        None \<Rightarrow> name
      | Some i \<Rightarrow> if 0 < i \<and> i < length name - 1 then take i name else name)"

text \<open>
  The file system at the time of a call: \<open>st_mtime\<close> is \<open>stat().st_mtime\<close> (\<open>None\<close>
  when \<open>stat\<close> raises \<open>OSError\<close>), \<open>content\<close> what opening and reading the file gives.
  The modification time is only ever compared for equality, so its type is left open.
\<close>

record 'm filesystem =
  st_mtime :: "path \<Rightarrow> 'm option"
  content :: "path \<Rightarrow> text_file"

text \<open>\<open>SessionCache._cache\<close>: a dict from the stem to the pair (mtime, prompts).\<close>

type_synonym 'm cache = "pystr \<rightharpoonup> ('m \<times> pystr list)"

text \<open>What a call did besides returning: the files it extracted and the records it logged.\<close>

datatype event = Extraction path | Logged log_record

definition get_prompts ::
  "(pystr \<Rightarrow> json option) \<Rightarrow> int \<Rightarrow> 'm filesystem \<Rightarrow> 'm cache \<Rightarrow> path \<Rightarrow> int \<Rightarrow>
     exn + (pystr list \<times> 'm cache \<times> event list)" where
  "get_prompts loads cap fs cache session_file max_prompts =
     (let session_id = stem session_file in
      case st_mtime fs session_file of
        None \<Rightarrow> Inr ([], cache, [])
      | Some current_mtime \<Rightarrow>
          (case cache session_id of
             Some (cached_mtime, cached_prompts) \<Rightarrow>
               if cached_mtime = current_mtime then Inr (cached_prompts, cache, [])
               else
                 (case extract_prompts_from_session loads cap (content fs session_file) max_prompts of
                    Inl e \<Rightarrow> Inl e
                  | Inr (prompts, logs) \<Rightarrow>
                      Inr (prompts, cache(session_id \<mapsto> (current_mtime, prompts)),
                           Extraction session_file # map Logged logs))
           | None \<Rightarrow>
               (case extract_prompts_from_session loads cap (content fs session_file) max_prompts of
                  Inl e \<Rightarrow> Inl e
                | Inr (prompts, logs) \<Rightarrow>
                    Inr (prompts, cache(session_id \<mapsto> (current_mtime, prompts)),
                         Extraction session_file # map Logged logs))))"

section \<open>HistoryScanner: \<open>get_today_sessions\<close>\<close>

text \<open>
  A naive \<open>datetime\<close> is its seven fields; two of them compare as the tuples of their
  fields do, and \<open>date()\<close> keeps the first three.
\<close>

record datetime =
  year :: nat
  month :: nat
  day :: nat
  hour :: nat
  minute :: nat
  second :: nat
  microsecond :: nat

type_synonym date = "nat \<times> nat \<times> nat"

definition date_of :: "datetime \<Rightarrow> date" where
  "date_of dt = (year dt, month dt, day dt)"

definition dt_key :: "datetime \<Rightarrow> nat \<times> nat \<times> nat \<times> nat \<times> nat \<times> nat \<times> nat" where
  "dt_key dt = (year dt, month dt, day dt, hour dt, minute dt, second dt, microsecond dt)"

record SessionInfo =
  session_id :: json
  project_path :: json
  last_updated :: datetime
  prompts :: "pystr list"

text \<open>
  A dict key is found by hash and equality. \<open>hash_key\<close> gives the class of a hashable
  value under \<open>==\<close> (\<open>True == 1\<close> and \<open>False == 0\<close>); a list or a dict is unhashable, and
  using one as a key raises \<open>TypeError\<close>.
\<close>

datatype hkey = HNone | HInt int | HStr pystr

fun hash_key :: "json \<Rightarrow> hkey option" where
  "hash_key JNull = Some HNone"
| "hash_key (JBool b) = Some (HInt (if b then 1 else 0))"
| "hash_key (JInt n) = Some (HInt n)"
| "hash_key (JStr s) = Some (HStr s)"
| "hash_key (JArr xs) = None"
| "hash_key (JObj kvs) = None"

text \<open>
  The number that \<open>timestamp_ms / 1000\<close> divides: an int, or a bool as 0 or 1. Dividing
  anything else by 1000 raises \<open>TypeError\<close>.
\<close>

fun number :: "json \<Rightarrow> int option" where
  "number (JInt n) = Some n"
| "number (JBool b) = Some (if b then 1 else 0)"
| "number v = None"

text \<open>
  \<open>all_sessions\<close>: a dict in insertion order, from the key of a session id to its
  \<open>SessionInfo\<close>. Assigning to a key that is present keeps its place.
\<close>

type_synonym sessions = "(hkey \<times> SessionInfo) list"

text \<open>
  Lines 215 to 236 for one line, down to the session it describes, with the key that
  \<open>session_id not in all_sessions\<close> hashes (\<open>TypeError\<close> for an unhashable id).
  \<open>fromtimestamp ms\<close> stands for \<open>datetime.fromtimestamp(ms / 1000)\<close> in the local
  time zone of the process, the division included, with the exception it raises if any;
  \<open>today\<close> is \<open>date.today()\<close>. \<open>ValueError\<close> and \<open>TypeError\<close> are caught at line 231
  and the line is skipped (\<open>None\<close>); any other exception leaves the loop.
\<close>

definition read_record ::
  "(pystr \<Rightarrow> json option) \<Rightarrow> (int \<Rightarrow> exn + datetime) \<Rightarrow> date \<Rightarrow> pystr \<Rightarrow>
     exn + (hkey \<times> SessionInfo) option" where
  "read_record loads fromtimestamp today line =
     (case loads (strip line) of
        None \<Rightarrow> Inr None
      | Some data \<Rightarrow>
          (case data of
             JObj d \<Rightarrow>
               let timestamp_ms = get d (str ''timestamp'');
                   project = get d (str ''project'');
                   sid = get d (str ''sessionId'')
               in
               if \<not> (truthy timestamp_ms \<and> truthy project \<and> truthy sid) then Inr None
               else
                 (case number timestamp_ms of
                    None \<Rightarrow> Inr None
                  | Some ms \<Rightarrow>
                      (case fromtimestamp ms of
                         Inl e \<Rightarrow> if e = ValueError \<or> e = TypeError then Inr None else Inl e
                       | Inr dt \<Rightarrow>
                           if date_of dt \<noteq> today then Inr None
                           else
                             (case hash_key sid of
                                None \<Rightarrow> Inl TypeError
                              | Some k \<Rightarrow>
                                  Inr (Some (k,
                                    \<lparr>session_id = sid, project_path = project,
                                     last_updated = dt, prompts = []\<rparr>)))))
           | _ \<Rightarrow> Inl AttributeError))"

text \<open>
  Lines 239 to 245: the session replaces the one stored under its key only when its time
  is strictly later.
\<close>

definition upsert :: "sessions \<Rightarrow> hkey \<times> SessionInfo \<Rightarrow> sessions" where
  "upsert all_sessions r =
     (case r of (k, session) \<Rightarrow>
        (case map_of all_sessions k of
           None \<Rightarrow> AList.update k session all_sessions
         | Some old \<Rightarrow>
             if dt_key (last_updated session) > dt_key (last_updated old)
             then AList.update k session all_sessions
             else all_sessions))"

text \<open>The body of the loop of lines 214 to 245 for one line.\<close>

definition scan_record ::
  "(pystr \<Rightarrow> json option) \<Rightarrow> (int \<Rightarrow> exn + datetime) \<Rightarrow> date \<Rightarrow> sessions \<Rightarrow> pystr \<Rightarrow>
     exn + sessions" where
  "scan_record loads fromtimestamp today all_sessions line =
     (case read_record loads fromtimestamp today line of
        Inl e \<Rightarrow> Inl e
      | Inr None \<Rightarrow> Inr all_sessions
      | Inr (Some r) \<Rightarrow> Inr (upsert all_sessions r))"

text \<open>
  The loop over the lines. An exception leaves it with the dict as it is at that moment:
  the handler of line 246 goes on with what was collected.
\<close>

fun scan_history ::
  "(pystr \<Rightarrow> json option) \<Rightarrow> (int \<Rightarrow> exn + datetime) \<Rightarrow> date \<Rightarrow> sessions \<Rightarrow> pystr list \<Rightarrow>
     sessions \<times> exn option" where
  "scan_history loads fromtimestamp today all_sessions [] = (all_sessions, None)"
| "scan_history loads fromtimestamp today all_sessions (line # rest) =
     (case scan_record loads fromtimestamp today all_sessions line of
        Inl e \<Rightarrow> (all_sessions, Some e)
      | Inr all_sessions' \<Rightarrow> scan_history loads fromtimestamp today all_sessions' rest)"

text \<open>
  \<open>project_sessions\<close>: a dict in insertion order from a project to its sessions; an
  item keeps the key object it was created with.
\<close>

type_synonym projects = "(hkey \<times> json \<times> SessionInfo list) list"

text \<open>Lines 251 to 255, one session: \<open>project_sessions[project].append(session)\<close>.\<close>

definition add_session :: "projects \<Rightarrow> SessionInfo \<Rightarrow> exn + projects" where
  "add_session project_sessions session =
     (case hash_key (project_path session) of
        None \<Rightarrow> Inl TypeError
      | Some k \<Rightarrow>
          (case map_of project_sessions k of
             None \<Rightarrow> Inr (project_sessions @ [(k, project_path session, [session])])
           | Some (project, ss) \<Rightarrow> Inr (AList.update k (project, ss @ [session]) project_sessions)))"

fun group_sessions :: "projects \<Rightarrow> SessionInfo list \<Rightarrow> exn + projects" where
  "group_sessions project_sessions [] = Inr project_sessions"
| "group_sessions project_sessions (session # rest) =
     (case add_session project_sessions session of
        Inl e \<Rightarrow> Inl e
      | Inr project_sessions' \<Rightarrow> group_sessions project_sessions' rest)"

text \<open>
  \<open>list.sort(key=lambda s: s.last_updated, reverse=True)\<close>: the stable sort into
  descending order, sessions with equal times staying in their order.
\<close>

fun insort_desc :: "SessionInfo \<Rightarrow> SessionInfo list \<Rightarrow> SessionInfo list" where
  "insort_desc x [] = [x]"
| "insort_desc x (y # ys) =
     (if dt_key (last_updated y) \<le> dt_key (last_updated x) then x # y # ys
      else y # insort_desc x ys)"

definition sort_desc :: "SessionInfo list \<Rightarrow> SessionInfo list" where
  "sort_desc xs = foldr insort_desc xs []"

definition MAX_SESSIONS_PER_PROJECT :: nat where
  "MAX_SESSIONS_PER_PROJECT = 3"

text \<open>Lines 258 to 260.\<close>

definition cap_project :: "hkey \<times> json \<times> SessionInfo list \<Rightarrow> hkey \<times> json \<times> SessionInfo list" where
  "cap_project item =
     (case item of (k, project, ss) \<Rightarrow> (k, project, take MAX_SESSIONS_PER_PROJECT (sort_desc ss)))"

text \<open>
  \<open>get_today_sessions\<close>. The history file is \<open>None\<close> when \<open>HISTORY_FILE.exists()\<close> is
  false. The result is the dict \<open>project_sessions\<close> as the list of its items, with the
  records logged.
\<close>

definition get_today_sessions ::
  "(pystr \<Rightarrow> json option) \<Rightarrow> (int \<Rightarrow> exn + datetime) \<Rightarrow> date \<Rightarrow> text_file option \<Rightarrow>
     exn + ((json \<times> SessionInfo list) list \<times> log_record list)" where
  "get_today_sessions loads fromtimestamp today history =
     (case history of
        None \<Rightarrow> Inr ([], [Warning_history_not_found])
      | Some file \<Rightarrow>
          (let (all_sessions, raised) =
                 (case file of
                    OpenFails \<Rightarrow> ([], Some OSError)
                  | Opened lines fails \<Rightarrow>
                      (case scan_history loads fromtimestamp today [] lines of
                         (st, None) \<Rightarrow> (st, if fails then Some OSError else None)
                       | (st, Some e) \<Rightarrow> (st, Some e)))
           in
           case raised of
             Some e \<Rightarrow>
               if e = OSError
               then (case group_sessions [] (map snd all_sessions) of
                       Inl e' \<Rightarrow> Inl e'
                     | Inr project_sessions \<Rightarrow>
                         Inr (map (snd \<circ> cap_project) project_sessions, [Error_history_read]))
               else Inl e
           | None \<Rightarrow>
               (case group_sessions [] (map snd all_sessions) of
                  Inl e' \<Rightarrow> Inl e'
                | Inr project_sessions \<Rightarrow> Inr (map (snd \<circ> cap_project) project_sessions, []))))"

section \<open>Renderer: \<open>format_markdown\<close>\<close>
















section \<open>Notions of the specification\<close>

text \<open>
  Trimming on the right, and the normal form the specification describes: every run of
  whitespace collapsed into one space.
\<close>

fun rstrip :: "pystr \<Rightarrow> pystr" where
  "rstrip [] = []"
| "rstrip (c # cs) = (if isspace c \<and> rstrip cs = [] then [] else c # rstrip cs)"

function collapse_ws :: "pystr \<Rightarrow> pystr" where
  "collapse_ws [] = []"
| "collapse_ws (c # cs) =
     (if isspace c then 32 # collapse_ws (dropWhile isspace cs) else c # collapse_ws cs)"
  by pat_completeness auto
termination
  by (relation "measure length") (auto simp: length_dropWhile_le less_Suc_eq_le)

text \<open>The prompts that PromptFilter accepts among the lines of a file, in file order.\<close>

definition accepted :: "(pystr \<Rightarrow> json option) \<Rightarrow> int \<Rightarrow> pystr list \<Rightarrow> pystr list" where
  "accepted loads cap lines =
     List.map_filter
       (\<lambda>line. case parse_user_message loads cap (strip line) of
                  Inr (Some prompt) \<Rightarrow> Some prompt
                | _ \<Rightarrow> None) lines"

text \<open>
  Today's records of a history log: the sessions that its lines describe, each with its
  key, in file order.
\<close>

definition todays_records ::
  "(pystr \<Rightarrow> json option) \<Rightarrow> (int \<Rightarrow> exn + datetime) \<Rightarrow> date \<Rightarrow> pystr list \<Rightarrow>
     (hkey \<times> SessionInfo) list" where
  "todays_records loads fromtimestamp today lines =
     List.map_filter
       (\<lambda>line. case read_record loads fromtimestamp today line of
                  Inr (Some r) \<Rightarrow> Some r
                | _ \<Rightarrow> None) lines"


text \<open>
  The text left after an open tag that starts a string: \<open><\<close>, a letter, name characters
  as far as they go, then either \<open>>\<close> at once, or a whitespace character and everything
  up to the next \<open>>\<close>; the tag does not count when \<open></\<close> follows it. Likewise after a
  close tag: \<open></\<close>, a letter, name characters as far as they go, then \<open>>\<close>.
\<close>

definition open_tag_end :: "pystr \<Rightarrow> pystr option" where
  "open_tag_end s =
     (case s of
        c0 # c1 # cs \<Rightarrow>
          if c0 = 60 \<and> ascii_letter c1 then
            (case dropWhile name_char cs of
               [] \<Rightarrow> None
             | x # r \<Rightarrow>
                 if x = 62 then (if prefix [60, 47] r then None else Some r)
                 else if isspace x then
                   (case dropWhile (\<lambda>c. c \<noteq> 62) r of
                      [] \<Rightarrow> None
                    | g # r' \<Rightarrow> if prefix [60, 47] r' then None else Some r')
                 else None)
          else None
      | _ \<Rightarrow> None)"

definition close_tag_end :: "pystr \<Rightarrow> pystr option" where
  "close_tag_end s =
     (case s of
        c0 # c1 # c2 # cs \<Rightarrow>
          if c0 = 60 \<and> c1 = 47 \<and> ascii_letter c2 then
            (case dropWhile name_char cs of
               [] \<Rightarrow> None
             | x # r \<Rightarrow> if x = 62 then Some r else None)
          else None
      | _ \<Rightarrow> None)"

text \<open>
  The number of tags in a string, read from left to right, each search starting where the
  tag before it ended.
\<close>

fun count_tags :: "(pystr \<Rightarrow> pystr option) \<Rightarrow> pystr \<Rightarrow> nat" where
  "count_tags m [] = 0"
| "count_tags m (c # cs) =
     (case m (c # cs) of
        None \<Rightarrow> count_tags m cs
      | Some rest \<Rightarrow>
          if length rest < length (c # cs) then Suc (count_tags m rest)
          else Suc (count_tags m cs))"

text \<open>
  An open tag by the words of the specification starts a string: a tag name with
  optional attributes, not self-closed (no \<open>/\<close> before its \<open>>\<close>), not immediately
  followed by its own closer. Its occurrences, and those of a close tag, are the places
  of the text (the text from each of its characters on) where one starts.
\<close>

primrec places :: "pystr \<Rightarrow> pystr list" where
  "places [] = []"
| "places (c # rest) = (c # rest) # places rest"

definition claimed_open_tag :: "pystr \<Rightarrow> bool" where
  "claimed_open_tag s =
     (case s of
        c0 # c1 # cs \<Rightarrow>
          c0 = 60 \<and> ascii_letter c1 \<and>
          (let name = c1 # takeWhile name_char cs in
           case dropWhile name_char cs of
             [] \<Rightarrow> False
           | x # r \<Rightarrow>
               if x = 62 then \<not> prefix (str ''</'' @ name @ str ''>'') r
               else isspace x \<and>
                 (case dropWhile (\<lambda>c. c \<noteq> 62) r of
                    [] \<Rightarrow> False
                  | g # r' \<Rightarrow>
                      last (x # takeWhile (\<lambda>c. c \<noteq> 62) r) \<noteq> 47 \<and>
                      \<not> prefix (str ''</'' @ name @ str ''>'') r'))
      | _ \<Rightarrow> False)"

definition claimed_open_tags :: "pystr \<Rightarrow> pystr list" where
  "claimed_open_tags s = filter claimed_open_tag (places s)"

definition claimed_close_tags :: "pystr \<Rightarrow> pystr list" where
  "claimed_close_tags s = filter (\<lambda>t. close_tag_end t \<noteq> None) (places s)"

section \<open>Sample inputs\<close>

text \<open>
  A user record with the given content and the line that encodes it (the content given
  as it is escaped in the line), and a stand-in for \<open>json.loads\<close> on a few lines: each
  line is paired with the value that decoding it gives; every other line is taken as
  malformed.
\<close>

definition user_record :: "pystr \<Rightarrow> json" where
  "user_record c =
     JObj [(str ''type'', JStr (str ''user'')),
           (str ''message'', JObj [(str ''role'', JStr (str ''user'')), (str ''content'', JStr c)])]"

definition user_line :: "pystr \<Rightarrow> pystr" where
  \<open>user_line c = str ''{"type":"user","message":{"role":"user","content":"'' @ c @ str ''"}}''\<close>

definition history_record :: "int \<Rightarrow> pystr \<Rightarrow> pystr \<Rightarrow> json" where
  "history_record ms project sid =
     JObj [(str ''timestamp'', JInt ms), (str ''project'', JStr project),
           (str ''sessionId'', JStr sid)]"

definition sample_loads :: "pystr \<Rightarrow> json option" where
  \<open>sample_loads = map_of
     [(user_line (str ''p1''), user_record (str ''p1'')),
      (user_line (str ''p2''), user_record (str ''p2'')),
      (user_line (str ''p3''), user_record (str ''p3'')),
      (user_line (str ''p4''), user_record (str ''p4'')),
      (user_line (str ''p5''), user_record (str ''p5'')),
      (user_line (str ''line1'' @ [92, 110] @ str ''line2   line3''),
       user_record (str ''line1'' @ [10] @ str ''line2   line3'')),
      (user_line (str ''aaaaaaaaaaaaaaaaaaaa''), user_record (str ''aaaaaaaaaaaaaaaaaaaa'')),
      (user_line (str ''<note>unterminated''), user_record (str ''<note>unterminated'')),
      (user_line (str ''<note>x</note>''), user_record (str ''<note>x</note>'')),
      (user_line (str ''<a><b></a>''), user_record (str ''<a><b></a>'')),
      (user_line (str ''<br />''), user_record (str ''<br />'')),
      (str ''[]'', JArr []),
      (str ''{"timestamp":1762250400000,"project":"/w/a","sessionId":"s1"}'',
       history_record 1762250400000 (str ''/w/a'') (str ''s1'')),
      (str ''{"timestamp":1762246800000,"project":"/w/b","sessionId":"s1"}'',
       history_record 1762246800000 (str ''/w/b'') (str ''s1'')),
      (str ''{"timestamp":1762214399000,"project":"/w/a","sessionId":"s2"}'',
       history_record 1762214399000 (str ''/w/a'') (str ''s2'')),
      (str ''{"timestamp":0,"project":"/w/a","sessionId":"s3"}'',
       history_record 0 (str ''/w/a'') (str ''s3''))]\<close>



definition five_lines :: "pystr list" where
  "five_lines = map (\<lambda>c. user_line (str c) @ [10]) [''p1'', ''p2'', ''p3'', ''p4'', ''p5'']"

text \<open>
  \<open>datetime.fromtimestamp(ms / 1000)\<close> in a process whose local time zone is UTC, for a
  whole number of milliseconds: the civil date of the day count (from the era, the day
  and the year of the era, the day of the year and the month counted from March) and the
  time of day; \<open>ValueError\<close> outside the years 1 to 9999.
\<close>

definition civil_date :: "int \<Rightarrow> int \<Rightarrow> int \<Rightarrow> int \<Rightarrow> date" where
  "civil_date era yoe doy mp =
     (nat (yoe + era * 400 + (if mp < 10 then 0 else 1)),
      nat (if mp < 10 then mp + 3 else mp - 9),
      nat (doy - (153 * mp + 2) div 5 + 1))"

definition civil_doy :: "int \<Rightarrow> int \<Rightarrow> int \<Rightarrow> date" where
  "civil_doy era yoe doy = civil_date era yoe doy ((5 * doy + 2) div 153)"

definition civil_yoe :: "int \<Rightarrow> int \<Rightarrow> int \<Rightarrow> date" where
  "civil_yoe era doe yoe = civil_doy era yoe (doe - (365 * yoe + yoe div 4 - yoe div 100))"

definition civil_doe :: "int \<Rightarrow> int \<Rightarrow> date" where
  "civil_doe era doe =
     civil_yoe era doe ((doe - doe div 1460 + doe div 36524 - doe div 146096) div 365)"

definition civil_from_days :: "int \<Rightarrow> date" where
  "civil_from_days days = civil_doe ((days + 719468) div 146097) ((days + 719468) mod 146097)"

definition at_time :: "date \<Rightarrow> int \<Rightarrow> datetime" where
  "at_time d ms =
     (case d of (y, m, dd) \<Rightarrow>
        \<lparr>year = y, month = m, day = dd, hour = nat (ms div 3600000),
         minute = nat (ms div 60000 mod 60), second = nat (ms div 1000 mod 60),
         microsecond = nat (ms mod 1000) * 1000\<rparr>)"

definition utc_fromtimestamp :: "int \<Rightarrow> exn + datetime" where
  "utc_fromtimestamp ms =
     (if ms < - 62135596800000 \<or> 253402300800000 \<le> ms then Inl ValueError
      else Inr (at_time (civil_from_days (ms div 86400000)) (ms mod 86400000)))"

text \<open>
  Two session files with the same name in two project directories, with one prompt each,
  both last modified at the time \<open>m\<close>; and the cache that holds the first one's prompt.
\<close>

definition path_a :: path where "path_a = [str ''a'', str ''s.jsonl'']"
definition path_b :: path where "path_b = [str ''b'', str ''s.jsonl'']"

definition sample_fs :: "nat \<Rightarrow> nat filesystem" where
  "sample_fs m =
     \<lparr>st_mtime = (\<lambda>p. if p = path_a \<or> p = path_b then Some m else None),
      content = (\<lambda>p. if p = path_a then Opened [user_line (str ''p1'') @ [10]] False
                       else if p = path_b then Opened [user_line (str ''p2'') @ [10]] False
                       else OpenFails)\<rparr>"

definition cache_a :: "nat \<Rightarrow> nat cache" where
  "cache_a m = [str ''s'' \<mapsto> (m, [str ''p1''])]"





section \<open>Properties\<close>

lemmas sample_defs = sample_loads_def user_line_def user_record_def history_record_def
  five_lines_def

lemmas eval_defs = str_def isspace_def strip_def split_def open_tag_rx_def close_tag_rx_def
  chr_def ascii_letter_def name_char_def skip_tags_def clean_prompt_def slice_to_def Let_def
  parse_user_message_def user_content_def get_def get_default_def


subsection \<open>Whitespace\<close>

lemma rstrip_Nil_iff: "rstrip s = [] \<longleftrightarrow> (\<forall>c \<in> set s. isspace c)"
  by (induction s) auto

lemma dropWhile_rev: "dropWhile isspace (rev s) = rev (rstrip s)"
  by (induction s) (auto simp: dropWhile_append rstrip_Nil_iff)

lemma rev_dropWhile_rev: "rev (dropWhile isspace (rev s)) = rstrip s"
  by (simp add: dropWhile_rev)

lemma strip_rstrip: "strip s = rstrip (dropWhile isspace s)"
  by (simp add: strip_def rev_dropWhile_rev)

lemma split_from_Nil_iff: "split_from w s = [] \<longleftrightarrow> w = [] \<and> (\<forall>c \<in> set s. isspace c)"
  by (induction w s rule: split_from.induct) auto

lemma split_from_rstrip: "split_from w (rstrip s) = split_from w s"
proof (induction s arbitrary: w)
  case Nil
  show ?case by simp
next
  case (Cons c cs)
  show ?case
  proof (cases "isspace c \<and> rstrip cs = []")
    case True
    then have "split_from [] cs = []"
      by (simp add: split_from_Nil_iff rstrip_Nil_iff)
    with True show ?thesis by simp
  next
    case False
    then show ?thesis using Cons.IH by auto
  qed
qed

lemma split_from_dropWhile: "split_from [] (dropWhile isspace s) = split_from [] s"
  by (induction s) auto

lemma split_strip: "split (strip s) = split s"
  by (simp add: split_def strip_rstrip split_from_rstrip split_from_dropWhile)

lemma join_Cons: "join sep (w # ws) = (if ws = [] then w else w @ sep @ join sep ws)"
  by (cases ws) auto

lemma collapse_ws_Nil_iff: "collapse_ws s = [] \<longleftrightarrow> s = []"
  by (cases s) auto

lemma rstrip_collapse_nonspace:
  "s \<noteq> [] \<Longrightarrow> \<not> isspace (hd s) \<Longrightarrow> rstrip (collapse_ws s) \<noteq> []"
  by (cases s) auto

lemma dropWhile_hd: "dropWhile P s \<noteq> [] \<Longrightarrow> \<not> P (hd (dropWhile P s))"
  by (metis hd_dropWhile)

lemma dropWhile_all: "\<forall>x \<in> set xs. P x \<Longrightarrow> dropWhile P xs = []"
  by simp

lemma space32: "isspace 32"
  by (simp add: isspace_def)

lemma join_split_from:
  "join [32] (split_from w s) =
     (if w = [] then rstrip (collapse_ws (dropWhile isspace s)) else w @ rstrip (collapse_ws s))"
proof (induction w s rule: split_from.induct)
  case (1 w)
  show ?case by simp
next
  case (2 w c cs)
  show ?case
  proof (cases "isspace c")
    case sp: True
    show ?thesis
    proof (cases "w = []")
      case True
      with sp 2 show ?thesis by simp
    next
      case False
      let ?z = "dropWhile isspace cs"
      have ih: "join [32] (split_from [] cs) = rstrip (collapse_ws ?z)"
        using 2(2)[OF sp False] by simp
      show ?thesis
      proof (cases "?z = []")
        case True
        then have "split_from [] cs = []"
          by (simp add: split_from_Nil_iff dropWhile_eq_Nil_conv)
        with sp False True show ?thesis by (simp add: space32 dropWhile_all)
      next
        case nz: False
        then have "split_from [] cs \<noteq> []"
          by (simp add: split_from_Nil_iff dropWhile_eq_Nil_conv)
        moreover have "rstrip (collapse_ws ?z) \<noteq> []"
          using nz by (intro rstrip_collapse_nonspace dropWhile_hd) auto
        ultimately show ?thesis using sp False ih by (simp add: join_Cons)
      qed
    qed
  next
    case ns: False
    with 2(3) show ?thesis by simp
  qed
qed

lemma dropWhile_collapse: "dropWhile isspace (collapse_ws s) = collapse_ws (dropWhile isspace s)"
proof (cases s)
  case Nil
  then show ?thesis by simp
next
  case (Cons c cs)
  show ?thesis
  proof (cases "isspace c")
    case True
    let ?z = "dropWhile isspace cs"
    have "dropWhile isspace (collapse_ws ?z) = collapse_ws ?z"
    proof (cases ?z)
      case Nil
      then show ?thesis by (simp add: dropWhile_all)
    next
      case (Cons d ds)
      then have "\<not> isspace d" by (metis hd_dropWhile list.distinct(1) list.sel(1))
      with Cons show ?thesis by simp
    qed
    moreover have "dropWhile isspace (collapse_ws s) = dropWhile isspace (collapse_ws ?z)"
      using True Cons by (simp add: space32)
    moreover have "dropWhile isspace s = ?z"
      using True Cons by simp
    ultimately show ?thesis by simp
  next
    case False
    with Cons show ?thesis by simp
  qed
qed

lemma join_split: "join (str '' '') (split s) = strip (collapse_ws s)"
  by (simp add: split_def join_split_from strip_rstrip dropWhile_collapse str_def)

lemma all_dropWhile: "(\<forall>c \<in> set (dropWhile P s). P c) \<longleftrightarrow> (\<forall>c \<in> set s. P c)"
  by (induction s) auto

lemma strip_Nil_iff: "strip s = [] \<longleftrightarrow> (\<forall>c \<in> set s. isspace c)"
  by (simp add: strip_rstrip rstrip_Nil_iff all_dropWhile)

lemma split_Nil_iff: "split s = [] \<longleftrightarrow> (\<forall>c \<in> set s. isspace c)"
  by (simp add: split_def split_from_Nil_iff)

lemma split_from_words_nonempty: "w' \<in> set (split_from w s) \<Longrightarrow> w' \<noteq> []"
  by (induction w s rule: split_from.induct) (auto split: if_splits)

lemma join_nonempty: "ws \<noteq> [] \<Longrightarrow> \<forall>w \<in> set ws. w \<noteq> [] \<Longrightarrow> join sep ws \<noteq> []"
  by (cases ws) (auto simp: join_Cons)

lemma clean_prompt_nonempty: "clean_prompt cap c = Some p \<Longrightarrow> p \<noteq> []"
proof -
  assume a: "clean_prompt cap c = Some p"
  then have ne: "strip c \<noteq> []"
    by (auto simp: clean_prompt_def Let_def split: if_splits)
  then have "split (strip c) \<noteq> []"
    by (simp add: split_strip split_Nil_iff strip_Nil_iff)
  then have "join (str '' '') (split (strip c)) \<noteq> []"
    by (intro join_nonempty) (auto simp: split_def dest: split_from_words_nonempty)
  with a show ?thesis
    by (auto simp: clean_prompt_def Let_def str_def split: if_splits)
qed

lemma parse_prompt_nonempty: "parse_user_message loads cap line = Inr (Some p) \<Longrightarrow> p \<noteq> []"
  by (auto simp: parse_user_message_def split: option.splits sum.splits dest: clean_prompt_nonempty)

subsection \<open>PromptFilter\<close>

text \<open>
  Claim C7. An accepted line yields the content of its record with every run of
  whitespace (newlines included) collapsed into one space and the ends trimmed; when
  that text is longer than the cap, the prompt is the slice of the text up to the cap
  followed by three dots, and for a cap that is not negative the slice is the first
  \<open>cap\<close> characters.
\<close>

theorem prompt_normalised:
  "parse_user_message loads cap line = Inr (Some out) \<Longrightarrow>
   \<exists>data c. loads line = Some data \<and> user_content data = Inr (Some c) \<and>
     out = (if cap < int (length (strip (collapse_ws c)))
            then slice_to (strip (collapse_ws c)) cap @ str ''...''
            else strip (collapse_ws c)) \<and>
     (0 \<le> cap \<longrightarrow> slice_to (strip (collapse_ws c)) cap = take (nat cap) (strip (collapse_ws c)))"
proof -
  assume a: "parse_user_message loads cap line = Inr (Some out)"
  then obtain data c where d: "loads line = Some data" "user_content data = Inr (Some c)"
    and cp: "clean_prompt cap c = Some out"
    by (auto simp: parse_user_message_def split: option.splits sum.splits)
  have n: "join (str '' '') (split (strip c)) = strip (collapse_ws c)"
    by (simp add: split_strip join_split)
  from cp have "out = (if cap < int (length (strip (collapse_ws c)))
            then slice_to (strip (collapse_ws c)) cap @ str ''...''
            else strip (collapse_ws c))"
    unfolding clean_prompt_def Let_def n by (auto split: if_splits)
  moreover have "0 \<le> cap \<longrightarrow> slice_to (strip (collapse_ws c)) cap = take (nat cap) (strip (collapse_ws c))"
    by (simp add: slice_to_def)
  ultimately show ?thesis using d by blast
qed

theorem prompt_normalised_witness:
  "parse_user_message sample_loads 300 (user_line (str ''line1'' @ [92, 110] @ str ''line2   line3''))
     = Inr (Some (str ''line1 line2 line3'')) \<and>
   strip (collapse_ws (str ''line1'' @ [10] @ str ''line2   line3'')) = str ''line1 line2 line3'' \<and>
   parse_user_message sample_loads 10 (user_line (str ''aaaaaaaaaaaaaaaaaaaa''))
     = Inr (Some (str ''aaaaaaaaaa...'')) \<and>
   take 10 (strip (collapse_ws (str ''aaaaaaaaaaaaaaaaaaaa''))) = str ''aaaaaaaaaa''"
proof -
  let ?l1 = "user_line (str ''line1'' @ [92, 110] @ str ''line2   line3'')"
  let ?c1 = "str ''line1'' @ [10] @ str ''line2   line3''"
  let ?l2 = "user_line (str ''aaaaaaaaaaaaaaaaaaaa'')"
  let ?c2 = "str ''aaaaaaaaaaaaaaaaaaaa''"
  have h1: "parse_user_message sample_loads 300 ?l1 = Inr (Some (str ''line1 line2 line3''))"
    by (simp add: sample_defs eval_defs)
  have h2: "parse_user_message sample_loads 10 ?l2 = Inr (Some (str ''aaaaaaaaaa...''))"
    by (simp add: sample_defs eval_defs)
  have d1: "sample_loads ?l1 = Some (user_record ?c1)"
    by (simp add: sample_loads_def user_line_def str_def)
  have d2: "sample_loads ?l2 = Some (user_record ?c2)"
    by (simp add: sample_loads_def user_line_def str_def)
  have u: "user_content (user_record c) = Inr (Some c)" for c
    by (simp add: user_record_def user_content_def get_def get_default_def str_def)
  have e1: "strip (collapse_ws ?c1) = str ''line1 line2 line3''"
    by (simp add: str_def isspace_def strip_def)
  have e2: "strip (collapse_ws ?c2) = ?c2"
    by (simp add: str_def isspace_def strip_def)
  from prompt_normalised [of sample_loads 300 ?l1, OF h1] obtain data1 c1
    where a1: "sample_loads ?l1 = Some data1" "user_content data1 = Inr (Some c1)"
      and o1: "str ''line1 line2 line3'' =
        (if 300 < int (length (strip (collapse_ws c1)))
         then slice_to (strip (collapse_ws c1)) 300 @ str ''...'' else strip (collapse_ws c1))"
    by blast
  from a1(1) d1 have "data1 = user_record ?c1" by simp
  with a1(2) u [of ?c1] have "c1 = ?c1" by simp
  with o1 e1 have r1: "strip (collapse_ws ?c1) = str ''line1 line2 line3''"
    by simp
  from prompt_normalised [of sample_loads 10 ?l2, OF h2] obtain data2 c2
    where a2: "sample_loads ?l2 = Some data2" "user_content data2 = Inr (Some c2)"
      and o2: "(0::int) \<le> 10 \<longrightarrow>
         slice_to (strip (collapse_ws c2)) 10 = take (nat 10) (strip (collapse_ws c2))"
    by blast
  from a2(1) d2 have "data2 = user_record ?c2" by simp
  with a2(2) u [of ?c2] have "c2 = ?c2" by simp
  with o2 e2 have r2: "take 10 (strip (collapse_ws ?c2)) = str ''aaaaaaaaaa''"
    by (simp add: str_def slice_to_def)
  from r1 r2 h1 h2 show ?thesis by simp
qed

text \<open>
  The rejections of a line that does not decode, and of a line that decodes to a record:
  each of the conditions alone gives \<open>None\<close>, whatever the rest of the record holds.
\<close>

lemma user_record_rejected:
  "loads line = None \<Longrightarrow> parse_user_message loads cap line = Inr None"
  "loads line = Some (JObj d) \<Longrightarrow> get d (str ''type'') \<noteq> JStr (str ''user'') \<Longrightarrow>
     parse_user_message loads cap line = Inr None"
  "loads line = Some (JObj d) \<Longrightarrow> truthy (get_default d (str ''isMeta'') (JBool False)) \<Longrightarrow>
     parse_user_message loads cap line = Inr None"
  "loads line = Some (JObj d) \<Longrightarrow> \<forall>m. m \<noteq> [] \<longrightarrow> get d (str ''message'') \<noteq> JObj m \<Longrightarrow>
     parse_user_message loads cap line = Inr None"
  "loads line = Some (JObj d) \<Longrightarrow> get d (str ''message'') = JObj m \<Longrightarrow>
     get m (str ''role'') \<noteq> JStr (str ''user'') \<Longrightarrow>
     parse_user_message loads cap line = Inr None"
  "loads line = Some (JObj d) \<Longrightarrow> get d (str ''message'') = JObj m \<Longrightarrow>
     \<forall>c. get m (str ''content'') \<noteq> JStr c \<Longrightarrow>
     parse_user_message loads cap line = Inr None"
  "loads line = Some (JObj d) \<Longrightarrow> get d (str ''message'') = JObj m \<Longrightarrow>
     get m (str ''content'') = JStr c \<Longrightarrow> strip c = [] \<Longrightarrow>
     parse_user_message loads cap line = Inr None"
  "loads line = Some (JObj d) \<Longrightarrow> get d (str ''message'') = JObj m \<Longrightarrow>
     get m (str ''content'') = JStr c \<Longrightarrow> \<exists>tag \<in> set skip_tags. contains (strip c) tag \<Longrightarrow>
     parse_user_message loads cap line = Inr None"
  by (auto simp: parse_user_message_def user_content_def clean_prompt_def Let_def
           split: json.splits option.splits sum.splits)

text \<open>
  Claim C8. A line that decodes to a value that is not a record (a list, a number, a
  string, \<open>null\<close>) is not answered with \<open>None\<close>: \<open>data.get\<close> raises \<open>AttributeError\<close>,
  and the exception leaves \<open>parse_user_message\<close>.
\<close>

theorem non_object_line_raises:
  "loads line = Some data \<Longrightarrow> \<forall>d. data \<noteq> JObj d \<Longrightarrow>
   parse_user_message loads cap line = Inl AttributeError"
  by (cases data) (auto simp: parse_user_message_def user_content_def)

theorem non_object_line_raises_witness:
  "sample_loads (str ''[]'') = Some (JArr []) \<and>
   parse_user_message sample_loads 300 (str ''[]'') = Inl AttributeError"
proof -
  have h: "sample_loads (str ''[]'') = Some (JArr [])"
    by (simp add: sample_loads_def user_line_def str_def)
  from non_object_line_raises [of sample_loads "str ''[]''" "JArr []" 300] h show ?thesis by simp
qed

subsection \<open>Tag balance\<close>

lemma star_greedy_skip:
  "(\<And>c cs. P c \<Longrightarrow> k (c # cs) = None) \<Longrightarrow> star_greedy P s k = k (dropWhile P s)"
  by (induction s) (auto split: option.splits)

lemma name_char_facts: "name_char c \<Longrightarrow> c \<noteq> 62 \<and> \<not> isspace c"
  by (auto simp: name_char_def isspace_def)

lemma isspace_not_gt: "isspace c \<Longrightarrow> c \<noteq> 62"
  by (auto simp: isspace_def)

lemma ahead_closer:
  "rx_match (Seq (chr CHR ''<'') (chr CHR ''/'')) r Some = None \<longleftrightarrow> \<not> prefix [60, 47] r"
  by (auto simp: chr_def split: list.splits)

lemma gt_then_no_closer:
  "rx_match (Seq (chr CHR ''>'') (NotAhead (Seq (chr CHR ''<'') (chr CHR ''/'')))) s Some =
     (case s of [] \<Rightarrow> None | x # r \<Rightarrow> if x = 62 \<and> \<not> prefix [60, 47] r then Some r else None)"
proof (cases s)
  case Nil
  then show ?thesis by (simp add: chr_def)
next
  case (Cons x r)
  have "rx_match (NotAhead (Seq (chr CHR ''<'') (chr CHR ''/''))) r Some =
          (if \<not> prefix [60, 47] r then Some r else None)"
    using ahead_closer[of r] by (auto split: option.splits)
  with Cons show ?thesis by (simp add: chr_def)
qed

lemma attrs_generic:
  assumes "\<And>c cs. c \<noteq> 62 \<Longrightarrow> rx_match B (c # cs) Some = None"
  shows "rx_match (Seq (Opt (Seq (Cls isspace) (Star (\<lambda>c. c \<noteq> 62)))) B) s Some =
     (case s of
        [] \<Rightarrow> rx_match B [] Some
      | x # r \<Rightarrow>
          if isspace x
          then (case rx_match B (dropWhile (\<lambda>c. c \<noteq> 62) r) Some of
                  Some t \<Rightarrow> Some t
                | None \<Rightarrow> rx_match B (x # r) Some)
          else rx_match B (x # r) Some)"
proof -
  have "star_greedy (\<lambda>c. c \<noteq> 62) r (\<lambda>t. rx_match B t Some) =
          rx_match B (dropWhile (\<lambda>c. c \<noteq> 62) r) Some" for r
    by (rule star_greedy_skip) (rule assms)
  then show ?thesis by (cases s) simp_all
qed

lemma dropWhile_Cons_mem: "dropWhile P xs = y # ys \<Longrightarrow> y \<in> set xs"
  by (metis list.set_intros(1) set_dropWhileD)

lemma attrs_then_gt:
  "rx_match (Seq (Opt (Seq (Cls isspace) (Star (\<lambda>c. c \<noteq> 62))))
      (Seq (chr CHR ''>'') (NotAhead (Seq (chr CHR ''<'') (chr CHR ''/''))))) s Some =
     (case s of
        [] \<Rightarrow> None
      | x # r \<Rightarrow>
          if x = 62 then (if prefix [60, 47] r then None else Some r)
          else if isspace x then
            (case dropWhile (\<lambda>c. c \<noteq> 62) r of
               [] \<Rightarrow> None
             | g # r' \<Rightarrow> if prefix [60, 47] r' then None else Some r')
          else None)"
proof -
  have d: "dropWhile (\<lambda>c. c \<noteq> 62) r = g # r' \<Longrightarrow> g = 62" for r :: pystr and g r'
    using hd_dropWhile[of "\<lambda>c. c \<noteq> 62" r] by auto
  have f: "rx_match (Seq (chr CHR ''>'') (NotAhead (Seq (chr CHR ''<'') (chr CHR ''/''))))
          (c # cs) Some = None" if "c \<noteq> 62" for c cs
    unfolding gt_then_no_closer using that by simp
  have e: "rx_match (Seq (Opt (Seq (Cls isspace) (Star (\<lambda>c. c \<noteq> 62))))
      (Seq (chr CHR ''>'') (NotAhead (Seq (chr CHR ''<'') (chr CHR ''/''))))) s Some =
     (case s of
        [] \<Rightarrow> rx_match (Seq (chr CHR ''>'') (NotAhead (Seq (chr CHR ''<'') (chr CHR ''/'')))) [] Some
      | x # r \<Rightarrow>
          if isspace x
          then (case rx_match (Seq (chr CHR ''>'') (NotAhead (Seq (chr CHR ''<'') (chr CHR ''/''))))
                       (dropWhile (\<lambda>c. c \<noteq> 62) r) Some of
                  Some t \<Rightarrow> Some t
                | None \<Rightarrow> rx_match (Seq (chr CHR ''>'') (NotAhead (Seq (chr CHR ''<'') (chr CHR ''/''))))
                           (x # r) Some)
          else rx_match (Seq (chr CHR ''>'') (NotAhead (Seq (chr CHR ''<'') (chr CHR ''/''))))
                 (x # r) Some)"
    by (rule attrs_generic) (rule f)
  show ?thesis
    unfolding e gt_then_no_closer
    by (auto split: list.splits dest: d isspace_not_gt dropWhile_Cons_mem)
qed

lemma front_generic:
  assumes "\<And>c cs. name_char c \<Longrightarrow> rx_match B (c # cs) Some = None"
  shows "rx_match (Seq (chr CHR ''<'') (Seq (Cls ascii_letter) (Seq (Star name_char) B))) s Some =
     (case s of
        c0 # c1 # cs \<Rightarrow>
          if c0 = 60 \<and> ascii_letter c1 then rx_match B (dropWhile name_char cs) Some else None
      | _ \<Rightarrow> None)"
proof -
  have "star_greedy name_char r (\<lambda>t. rx_match B t Some) = rx_match B (dropWhile name_char r) Some"
    for r
    by (rule star_greedy_skip) (rule assms)
  then show ?thesis by (simp add: chr_def split: list.splits)
qed

lemma open_tag_match: "rx_match open_tag_rx s Some = open_tag_end s"
proof -
  have f: "rx_match (Seq (Opt (Seq (Cls isspace) (Star (\<lambda>c. c \<noteq> 62))))
      (Seq (chr CHR ''>'') (NotAhead (Seq (chr CHR ''<'') (chr CHR ''/''))))) (c # cs) Some = None"
    if "name_char c" for c cs
    unfolding attrs_then_gt using name_char_facts[OF that] by simp
  have "rx_match open_tag_rx s Some =
     (case s of
        c0 # c1 # cs \<Rightarrow>
          if c0 = 60 \<and> ascii_letter c1
          then rx_match (Seq (Opt (Seq (Cls isspace) (Star (\<lambda>c. c \<noteq> 62))))
                  (Seq (chr CHR ''>'') (NotAhead (Seq (chr CHR ''<'') (chr CHR ''/'')))))
                 (dropWhile name_char cs) Some
          else None
      | _ \<Rightarrow> None)"
    unfolding open_tag_rx_def by (rule front_generic) (rule f)
  then show ?thesis
    unfolding open_tag_end_def attrs_then_gt by simp
qed

lemma close_generic:
  assumes "\<And>c cs. name_char c \<Longrightarrow> rx_match B (c # cs) Some = None"
  shows "rx_match (Seq (chr CHR ''<'') (Seq (chr CHR ''/'') (Seq (Cls ascii_letter)
            (Seq (Star name_char) B)))) s Some =
     (case s of
        c0 # c1 # c2 # cs \<Rightarrow>
          if c0 = 60 \<and> c1 = 47 \<and> ascii_letter c2 then rx_match B (dropWhile name_char cs) Some
          else None
      | _ \<Rightarrow> None)"
proof -
  have "star_greedy name_char r (\<lambda>t. rx_match B t Some) = rx_match B (dropWhile name_char r) Some"
    for r
    by (rule star_greedy_skip) (rule assms)
  then show ?thesis by (simp add: chr_def split: list.splits)
qed

lemma gt_only:
  "rx_match (chr CHR ''>'') s Some = (case s of [] \<Rightarrow> None | x # r \<Rightarrow> if x = 62 then Some r else None)"
  by (simp add: chr_def split: list.splits)

lemma close_tag_match: "rx_match close_tag_rx s Some = close_tag_end s"
proof -
  have f: "rx_match (chr CHR ''>'') (c # cs) Some = None" if "name_char c" for c cs
    unfolding gt_only using name_char_facts[OF that] by simp
  have "rx_match close_tag_rx s Some =
     (case s of
        c0 # c1 # c2 # cs \<Rightarrow>
          if c0 = 60 \<and> c1 = 47 \<and> ascii_letter c2
          then rx_match (chr CHR ''>'') (dropWhile name_char cs) Some
          else None
      | _ \<Rightarrow> None)"
    unfolding close_tag_rx_def by (rule close_generic) (rule f)
  then show ?thesis
    unfolding close_tag_end_def gt_only by simp
qed

lemma length_findall: "length (findall r s) = count_tags (\<lambda>t. rx_match r t Some) s"
  by (induction r s rule: findall.induct) (auto split: option.splits)

lemma open_tag_count: "length (findall open_tag_rx s) = count_tags open_tag_end s"
  by (simp add: length_findall open_tag_match)

lemma close_tag_count: "length (findall close_tag_rx s) = count_tags close_tag_end s"
  by (simp add: length_findall close_tag_match)

lemma open_tag_end_shorter: "open_tag_end s = Some r \<Longrightarrow> length r < length s"
proof -
  have d: "length (dropWhile P xs) \<le> length xs" for P and xs :: pystr
    by (rule length_dropWhile_le)
  have e: "dropWhile P xs = y # ys \<Longrightarrow> length ys < length xs" for P y ys and xs :: pystr
    using d[of P xs] by simp
  assume "open_tag_end s = Some r"
  then show ?thesis
    by (auto simp: open_tag_end_def split: list.splits if_splits dest!: e)
qed

lemmas claimed_defs = claimed_open_tags_def claimed_close_tags_def claimed_open_tag_def
  close_tag_end_def open_tag_end_def str_def ascii_letter_def name_char_def isspace_def Let_def

text \<open>
  Claim C3, as the specification words it, fails: in \<open><a><b></a>\<close> the open tags by those
  words are \<open><a>\<close> and \<open><b>\<close> (what follows \<open><b>\<close> is the closer of \<open>a\<close>, not its own)
  against one close tag, and the line is accepted; \<open><br />\<close> has no open tag by those
  words (it is self-closed) and no close tag, and the line is rejected.
\<close>

theorem tag_words_counterexample:
  "parse_user_message sample_loads 300 (user_line (str ''<a><b></a>'')) =
     Inr (Some (str ''<a><b></a>'')) \<and>
   length (claimed_open_tags (str ''<a><b></a>'')) = 2 \<and>
   length (claimed_close_tags (str ''<a><b></a>'')) = 1 \<and>
   parse_user_message sample_loads 300 (user_line (str ''<br />'')) = Inr None \<and>
   length (claimed_open_tags (str ''<br />'')) = 0 \<and>
   length (claimed_close_tags (str ''<br />'')) = 0"
proof -
  have "parse_user_message sample_loads 300 (user_line (str ''<a><b></a>'')) =
     Inr (Some (str ''<a><b></a>''))"
    by (simp add: sample_defs eval_defs)
  moreover have "length (claimed_open_tags (str ''<a><b></a>'')) = 2"
    by (simp add: claimed_defs)
  moreover have "length (claimed_close_tags (str ''<a><b></a>'')) = 1"
    by (simp add: claimed_defs)
  moreover have "parse_user_message sample_loads 300 (user_line (str ''<br />'')) = Inr None"
    by (simp add: sample_defs eval_defs)
  moreover have "length (claimed_open_tags (str ''<br />'')) = 0"
    by (simp add: claimed_defs)
  moreover have "length (claimed_close_tags (str ''<br />'')) = 0"
    by (simp add: claimed_defs)
  ultimately show ?thesis by simp
qed

text \<open>
  Claim C3, amended. A record whose content is not empty after trimming and holds no
  sentinel marker is accepted exactly when the trimmed content has as many open tags as
  close tags, and is rejected otherwise, where the tags are those of \<open>open_tag_end\<close> and
  \<open>close_tag_end\<close> counted from left to right: an open tag may hold anything but \<open>>\<close>
  after a whitespace character (so \<open><br />\<close> is one), and it does not count when the
  closer of any tag follows it.
\<close>

theorem tag_balance:
  assumes "loads line = Some data" and "user_content data = Inr (Some c)"
    and "strip c \<noteq> []" and "\<not> (\<exists>tag \<in> set skip_tags. contains (strip c) tag)"
  shows "((\<exists>out. parse_user_message loads cap line = Inr (Some out)) \<longleftrightarrow>
            count_tags open_tag_end (strip c) = count_tags close_tag_end (strip c)) \<and>
         (parse_user_message loads cap line = Inr None \<longleftrightarrow>
            count_tags open_tag_end (strip c) \<noteq> count_tags close_tag_end (strip c))"
  using assms
  by (simp add: parse_user_message_def clean_prompt_def Let_def open_tag_count close_tag_count)

theorem tag_balance_witness:
  "parse_user_message sample_loads 300 (user_line (str ''<note>unterminated'')) = Inr None \<and>
   count_tags open_tag_end (str ''<note>unterminated'') = 1 \<and>
   count_tags close_tag_end (str ''<note>unterminated'') = 0 \<and>
   (\<exists>out. parse_user_message sample_loads 300 (user_line (str ''<note>x</note>'')) = Inr (Some out)) \<and>
   count_tags open_tag_end (str ''<note>x</note>'') = 1 \<and>
   count_tags close_tag_end (str ''<note>x</note>'') = 1"
proof -
  let ?u = "str ''<note>unterminated''" and ?b = "str ''<note>x</note>''"
  have u: "user_content (user_record c) = Inr (Some c)" for c
    by (simp add: user_record_def user_content_def get_def get_default_def str_def)
  have lu: "sample_loads (user_line ?u) = Some (user_record ?u)"
    by (simp add: sample_loads_def user_line_def str_def)
  have lb: "sample_loads (user_line ?b) = Some (user_record ?b)"
    by (simp add: sample_loads_def user_line_def str_def)
  have su: "strip ?u = ?u" and sb: "strip ?b = ?b"
    by (simp_all add: strip_def isspace_def str_def)
  have nu: "\<not> (\<exists>tag \<in> set skip_tags. contains (strip ?u) tag)"
    and nb: "\<not> (\<exists>tag \<in> set skip_tags. contains (strip ?b) tag)"
    by (simp_all add: strip_def isspace_def str_def skip_tags_def)
  have cu: "count_tags open_tag_end ?u = 1" "count_tags close_tag_end ?u = 0"
    by (simp_all add: claimed_defs)
  have cb: "count_tags open_tag_end ?b = 1" "count_tags close_tag_end ?b = 1"
    by (simp_all add: claimed_defs)
  from tag_balance [of sample_loads "user_line ?u" "user_record ?u" ?u 300] lu u nu cu su
  have "parse_user_message sample_loads 300 (user_line ?u) = Inr None"
    by (simp add: str_def)
  moreover from tag_balance [of sample_loads "user_line ?b" "user_record ?b" ?b 300] lb u nb cb sb
  have "\<exists>out. parse_user_message sample_loads 300 (user_line ?b) = Inr (Some out)"
    by (simp add: str_def)
  ultimately show ?thesis using cu cb by simp
qed

subsection \<open>SessionExtractor\<close>

lemma accepted_Nil: "accepted loads cap [] = []"
  by (simp add: accepted_def List.map_filter_simps)

lemma accepted_Cons:
  "accepted loads cap (l # ls) =
     (case parse_user_message loads cap (strip l) of
        Inr (Some p) \<Rightarrow> p # accepted loads cap ls
      | _ \<Rightarrow> accepted loads cap ls)"
  by (simp add: accepted_def List.map_filter_simps split: sum.splits option.splits)

lemma accepted_append:
  "accepted loads cap (xs @ ys) = accepted loads cap xs @ accepted loads cap ys"
  by (simp add: accepted_def List.map_filter_def)

lemma scan_session_result:
  "scan_session loads cap n fails acc lines = Inr (ps, logs) \<Longrightarrow>
     ps = acc @ take (nat n - length acc) (accepted loads cap lines)"
proof (induction lines arbitrary: acc)
  case Nil
  then show ?case by (simp add: accepted_Nil)
next
  case (Cons l ls)
  show ?case
  proof (cases "int (length acc) \<ge> n")
    case True
    with Cons.prems show ?thesis by simp
  next
    case False
    then have pos: "nat n - length acc = Suc (nat n - Suc (length acc))" by linarith
    show ?thesis
    proof (cases "parse_user_message loads cap (strip l)")
      case (Inl e)
      with False Cons.prems show ?thesis by simp
    next
      case (Inr r)
      show ?thesis
      proof (cases r)
        case None
        with Inr False Cons.prems Cons.IH[of acc] show ?thesis
          by (simp add: accepted_Cons)
      next
        case (Some p)
        then have "p \<noteq> []" using Inr parse_prompt_nonempty by blast
        with Some Inr False Cons.prems Cons.IH[of "acc @ [p]"] pos show ?thesis
          by (simp add: accepted_Cons)
      qed
    qed
  qed
qed

lemma scan_session_stops:
  "\<forall>l \<in> set pre. \<forall>e. parse_user_message loads cap (strip l) \<noteq> Inl e \<Longrightarrow>
   nat n \<le> length acc + length (accepted loads cap pre) \<Longrightarrow>
   \<exists>logs. scan_session loads cap n fails acc (pre @ rest) =
     Inr (acc @ take (nat n - length acc) (accepted loads cap pre), logs)"
proof (induction pre arbitrary: acc)
  case Nil
  then have "nat n \<le> length acc" by (simp add: accepted_Nil)
  then have "int (length acc) \<ge> n" by linarith
  then show ?case by (cases rest) (simp_all add: accepted_Nil)
next
  case (Cons l ls)
  show ?case
  proof (cases "int (length acc) \<ge> n")
    case True
    then show ?thesis by simp
  next
    case False
    then have pos: "nat n - length acc = Suc (nat n - Suc (length acc))" by linarith
    show ?thesis
    proof (cases "parse_user_message loads cap (strip l)")
      case (Inl e)
      with Cons.prems show ?thesis by simp
    next
      case (Inr r)
      show ?thesis
      proof (cases r)
        case None
        with Inr False Cons.prems Cons.IH[of acc] show ?thesis
          by (simp add: accepted_Cons)
      next
        case (Some p)
        then have "p \<noteq> []" using Inr parse_prompt_nonempty by blast
        with Some Inr False Cons.prems Cons.IH[of "acc @ [p]"] pos show ?thesis
          by (simp add: accepted_Cons)
      qed
    qed
  qed
qed

lemma scan_session_total:
  "\<forall>l \<in> set lines. \<forall>e. parse_user_message loads cap (strip l) \<noteq> Inl e \<Longrightarrow>
   \<exists>ps logs. scan_session loads cap n fails acc lines = Inr (ps, logs)"
proof (induction lines arbitrary: acc)
  case Nil
  show ?case by simp
next
  case (Cons l ls)
  then show ?case
    by (cases "parse_user_message loads cap (strip l)") (auto split: option.splits)
qed

lemma accepted_all_valid:
  "\<forall>l \<in> set lines. \<exists>p. parse_user_message loads cap (strip l) = Inr (Some p) \<Longrightarrow>
   length (accepted loads cap lines) = length lines"
  by (induction lines) (auto simp: accepted_Nil accepted_Cons)

text \<open>
  Claim C5. When the extractor returns, its prompts are the first \<open>n\<close> of the prompts
  that PromptFilter accepts among the lines, in file order, so at most \<open>n\<close> of them; it
  returns whenever no line makes PromptFilter raise; once a prefix of the file has given
  \<open>n\<close> prompts the result does not depend on the lines after it; and a file of five
  valid prompts with the limit 3 gives exactly the first three.
\<close>

theorem extract_first_prompts:
  "(extract_prompts_from_session loads cap (Opened lines fails) n = Inr (ps, logs) \<longrightarrow>
      ps = take (nat n) (accepted loads cap lines) \<and> length ps \<le> nat n) \<and>
   ((\<forall>l \<in> set lines. \<forall>e. parse_user_message loads cap (strip l) \<noteq> Inl e) \<longrightarrow>
      (\<exists>logs'. extract_prompts_from_session loads cap (Opened lines fails) n =
         Inr (take (nat n) (accepted loads cap lines), logs'))) \<and>
   ((\<forall>l \<in> set pre. \<forall>e. parse_user_message loads cap (strip l) \<noteq> Inl e) \<and>
    nat n \<le> length (accepted loads cap pre) \<longrightarrow>
      (\<exists>logs'. extract_prompts_from_session loads cap (Opened (pre @ rest) fails) n =
         Inr (take (nat n) (accepted loads cap pre), logs'))) \<and>
   (length lines = 5 \<and>
    (\<forall>l \<in> set lines. \<exists>p. parse_user_message loads cap (strip l) = Inr (Some p)) \<longrightarrow>
      (\<exists>logs'. extract_prompts_from_session loads cap (Opened lines fails) 3 =
         Inr (take 3 (accepted loads cap lines), logs')) \<and>
      length (take 3 (accepted loads cap lines)) = 3)"
proof (intro conjI impI)
  assume a: "extract_prompts_from_session loads cap (Opened lines fails) n = Inr (ps, logs)"
  then show "ps = take (nat n) (accepted loads cap lines)"
    using scan_session_result[of loads cap n fails "[]" lines ps logs]
    by (simp add: extract_prompts_from_session_def)
  then show "length ps \<le> nat n" by simp
next
  assume a: "\<forall>l \<in> set lines. \<forall>e. parse_user_message loads cap (strip l) \<noteq> Inl e"
  from scan_session_total[OF a, of n fails "[]"] obtain ps logs'
    where r: "scan_session loads cap n fails [] lines = Inr (ps, logs')" by blast
  from scan_session_result[OF r] r
  show "\<exists>logs'. extract_prompts_from_session loads cap (Opened lines fails) n =
         Inr (take (nat n) (accepted loads cap lines), logs')"
    by (simp add: extract_prompts_from_session_def)
next
  assume a: "(\<forall>l \<in> set pre. \<forall>e. parse_user_message loads cap (strip l) \<noteq> Inl e) \<and>
    nat n \<le> length (accepted loads cap pre)"
  then show "\<exists>logs'. extract_prompts_from_session loads cap (Opened (pre @ rest) fails) n =
         Inr (take (nat n) (accepted loads cap pre), logs')"
    using scan_session_stops[of pre loads cap n "[]" fails rest]
    by (simp add: extract_prompts_from_session_def)
next
  assume a: "length lines = 5 \<and>
    (\<forall>l \<in> set lines. \<exists>p. parse_user_message loads cap (strip l) = Inr (Some p))"
  then have len: "length (accepted loads cap lines) = 5"
    using accepted_all_valid[of lines loads cap] by simp
  from a have nr: "\<forall>l \<in> set lines. \<forall>e. parse_user_message loads cap (strip l) \<noteq> Inl e"
    by fastforce
  from scan_session_total[OF nr, of 3 fails "[]"] obtain ps logs'
    where r: "scan_session loads cap 3 fails [] lines = Inr (ps, logs')" by blast
  from scan_session_result[OF r] r
  show "\<exists>logs'. extract_prompts_from_session loads cap (Opened lines fails) 3 =
         Inr (take 3 (accepted loads cap lines), logs')"
    by (simp add: extract_prompts_from_session_def)
  from len show "length (take 3 (accepted loads cap lines)) = 3" by simp
qed

theorem extract_first_prompts_witness:
  "length five_lines = 5 \<and>
   (\<exists>logs. extract_prompts_from_session sample_loads 300 (Opened five_lines False) 3 =
      Inr ([str ''p1'', str ''p2'', str ''p3''], logs))"
proof -
  have v: "\<forall>l \<in> set five_lines. \<exists>p. parse_user_message sample_loads 300 (strip l) = Inr (Some p)"
    by (simp add: sample_defs eval_defs)
  have l: "length five_lines = 5"
    by (simp add: five_lines_def)
  have t: "take 3 (accepted sample_loads 300 five_lines) = [str ''p1'', str ''p2'', str ''p3'']"
    by (simp add: accepted_def List.map_filter_simps sample_defs eval_defs)
  from extract_first_prompts [of sample_loads 300 five_lines False 3 "[]" "[]" "[]" "[]"] v l
  have "\<exists>logs. extract_prompts_from_session sample_loads 300 (Opened five_lines False) 3 =
         Inr (take 3 (accepted sample_loads 300 five_lines), logs)"
    by blast
  with t l show ?thesis by simp
qed



subsection \<open>SessionCache\<close>

lemmas cache_defs = get_prompts_def extract_prompts_from_session_def sample_fs_def path_a_def
  path_b_def cache_a_def stem_def rfind_def

text \<open>
  Claim C1, as the specification words it, fails. The cache is keyed by the stem of the
  file name, not by the file: after a call for \<open>a/s.jsonl\<close>, a call for the other file
  \<open>b/s.jsonl\<close> with the same modification time returns the first file's prompts and
  extracts nothing, though its own extraction gives another prompt. And an entry holds
  one modification time only: when the time of a file goes from 1 to 2 and back to 1,
  the file is extracted three times, twice at the time 1.
\<close>

theorem cache_identity_counterexample:
  "path_a \<noteq> path_b \<and>
   get_prompts sample_loads 300 (sample_fs 7) Map.empty path_a 3 =
     Inr ([str ''p1''], cache_a 7, [Extraction path_a]) \<and>
   get_prompts sample_loads 300 (sample_fs 7) (cache_a 7) path_b 3 =
     Inr ([str ''p1''], cache_a 7, []) \<and>
   extract_prompts_from_session sample_loads 300 (content (sample_fs 7) path_b) 3 =
     Inr ([str ''p2''], []) \<and>
   get_prompts sample_loads 300 (sample_fs 1) Map.empty path_a 3 =
     Inr ([str ''p1''], cache_a 1, [Extraction path_a]) \<and>
   get_prompts sample_loads 300 (sample_fs 2) (cache_a 1) path_a 3 =
     Inr ([str ''p1''], cache_a 2, [Extraction path_a]) \<and>
   get_prompts sample_loads 300 (sample_fs 1) (cache_a 2) path_a 3 =
     Inr ([str ''p1''], cache_a 1, [Extraction path_a])"
proof -
  have "path_a \<noteq> path_b"
    by (simp add: path_a_def path_b_def str_def)
  moreover have "get_prompts sample_loads 300 (sample_fs 7) Map.empty path_a 3 =
     Inr ([str ''p1''], cache_a 7, [Extraction path_a])"
    by (simp add: cache_defs sample_defs eval_defs)
  moreover have "get_prompts sample_loads 300 (sample_fs 7) (cache_a 7) path_b 3 =
     Inr ([str ''p1''], cache_a 7, [])"
    by (simp add: cache_defs sample_defs eval_defs)
  moreover have "extract_prompts_from_session sample_loads 300 (content (sample_fs 7) path_b) 3 =
     Inr ([str ''p2''], [])"
    by (simp add: cache_defs sample_defs eval_defs)
  moreover have "get_prompts sample_loads 300 (sample_fs 1) Map.empty path_a 3 =
     Inr ([str ''p1''], cache_a 1, [Extraction path_a])"
    by (simp add: cache_defs sample_defs eval_defs)
  moreover have "get_prompts sample_loads 300 (sample_fs 2) (cache_a 1) path_a 3 =
     Inr ([str ''p1''], cache_a 2, [Extraction path_a])"
    by (simp add: cache_defs sample_defs eval_defs)
  moreover have "get_prompts sample_loads 300 (sample_fs 1) (cache_a 2) path_a 3 =
     Inr ([str ''p1''], cache_a 1, [Extraction path_a])"
    by (simp add: cache_defs sample_defs eval_defs)
  ultimately show ?thesis by simp
qed

text \<open>
  Claim C1, amended. For every call: when the file cannot be stat-ed the result is empty,
  the cache is unchanged and nothing is extracted; when the entry under the stem of the
  file name holds the file's current modification time, its prompts are returned, the
  cache is unchanged and nothing is extracted; otherwise the file is extracted and,
  unless the extraction raises, its result is returned and stored under the stem with the
  current time. So a call that follows a call for the same stem and the same time, on the
  cache it left, returns the same prompts and extracts nothing.
\<close>

theorem get_prompts_cases:
  "(st_mtime fs session_file = None \<longrightarrow>
      get_prompts loads cap fs cache session_file n = Inr ([], cache, [])) \<and>
   (st_mtime fs session_file = Some m \<and> cache (stem session_file) = Some (m, ps) \<longrightarrow>
      get_prompts loads cap fs cache session_file n = Inr (ps, cache, [])) \<and>
   (st_mtime fs session_file = Some m \<and> (\<forall>ps'. cache (stem session_file) \<noteq> Some (m, ps')) \<longrightarrow>
      get_prompts loads cap fs cache session_file n =
        (case extract_prompts_from_session loads cap (content fs session_file) n of
           Inl e \<Rightarrow> Inl e
         | Inr (ps', logs) \<Rightarrow>
             Inr (ps', cache(stem session_file \<mapsto> (m, ps')),
                  Extraction session_file # map Logged logs))) \<and>
   (get_prompts loads cap fs cache session_file n = Inr (ps, cache', evs) \<and>
    st_mtime fs session_file = Some m \<and> st_mtime fs' session_file' = Some m \<and>
    stem session_file' = stem session_file \<longrightarrow>
      get_prompts loads cap fs' cache' session_file' n' = Inr (ps, cache', []))"
  by (auto simp: get_prompts_def Let_def split: option.splits sum.splits if_splits)

theorem get_prompts_cases_witness:
  "get_prompts sample_loads 300 (sample_fs 7) Map.empty path_a 3 =
     Inr ([str ''p1''], cache_a 7, [Extraction path_a]) \<and>
   get_prompts sample_loads 300 (sample_fs 7) (cache_a 7) path_a 3 =
     Inr ([str ''p1''], cache_a 7, [])"
proof -
  have h: "get_prompts sample_loads 300 (sample_fs 7) Map.empty path_a 3 =
     Inr ([str ''p1''], cache_a 7, [Extraction path_a])"
    by (simp add: cache_defs sample_defs eval_defs)
  have m: "st_mtime (sample_fs 7) path_a = Some 7"
    by (simp add: sample_fs_def)
  from get_prompts_cases [of "sample_fs 7" path_a sample_loads 300 Map.empty 3 7
      "[str ''p1'']" "cache_a 7" "[Extraction path_a]" "sample_fs 7" path_a 3] h m
  have "get_prompts sample_loads 300 (sample_fs 7) (cache_a 7) path_a 3 =
     Inr ([str ''p1''], cache_a 7, [])"
    by blast
  with h show ?thesis by simp
qed

subsection \<open>HistoryScanner\<close>

lemma scan_history_append:
  "scan_history loads fts today st (xs @ ys) =
     (case scan_history loads fts today st xs of
        (st', None) \<Rightarrow> scan_history loads fts today st' ys
      | (st', Some e) \<Rightarrow> (st', Some e))"
  by (induction xs arbitrary: st) (auto split: sum.splits)

lemma falsy_iff: "\<not> truthy v \<longleftrightarrow> v \<in> {JNull, JBool False, JInt 0, JStr [], JArr [], JObj []}"
  by (cases v) auto

lemma read_record_falsy:
  "loads (strip line) = Some (JObj d) \<Longrightarrow>
   \<not> truthy (get d (str ''timestamp'')) \<or> \<not> truthy (get d (str ''project'')) \<or>
   \<not> truthy (get d (str ''sessionId'')) \<Longrightarrow>
   read_record loads fts today line = Inr None"
  by (auto simp: read_record_def Let_def)

lemma scan_record_skip:
  "read_record loads fts today line = Inr None \<Longrightarrow>
   scan_record loads fts today st line = Inr st"
  by (simp add: scan_record_def)

lemma scan_history_skip:
  "read_record loads fts today line = Inr None \<Longrightarrow>
   scan_history loads fts today st (pre @ line # post) = scan_history loads fts today st (pre @ post)"
  by (simp add: scan_history_append scan_record_skip split: prod.splits option.splits)

lemma todays_records_Nil: "todays_records loads fts today [] = []"
  by (simp add: todays_records_def List.map_filter_simps)

lemma todays_records_Cons:
  "todays_records loads fts today (l # ls) =
     (case read_record loads fts today l of
        Inr (Some r) \<Rightarrow> r # todays_records loads fts today ls
      | _ \<Rightarrow> todays_records loads fts today ls)"
  by (simp add: todays_records_def List.map_filter_simps split: sum.splits option.splits)




lemma scan_history_total:
  "\<forall>l \<in> set lines. \<forall>e. read_record loads fts today l \<noteq> Inl e \<Longrightarrow>
   scan_history loads fts today st lines =
     (foldl upsert st (todays_records loads fts today lines), None)"
proof (induction lines arbitrary: st)
  case Nil
  then show ?case by (simp add: todays_records_Nil)
next
  case (Cons l ls)
  then show ?case
    by (cases "read_record loads fts today l")
       (auto simp: scan_record_def todays_records_Cons split: option.splits)
qed





































text \<open>
  Claim C10. A history record whose timestamp, project or session id is missing
  (\<open>get\<close> gives \<open>None\<close>) or falsy (\<open>False\<close>, 0, the empty string, an empty list or dict)
  is skipped: the scan goes on with the sessions unchanged, the record is none of today's
  records, and the scanner's result is the one for the log without that line.
\<close>

theorem falsy_fields_skipped:
  assumes "loads (strip line) = Some (JObj d)"
    and "get d (str ''timestamp'') \<in> {JNull, JBool False, JInt 0, JStr [], JArr [], JObj []} \<or>
         get d (str ''project'') \<in> {JNull, JBool False, JInt 0, JStr [], JArr [], JObj []} \<or>
         get d (str ''sessionId'') \<in> {JNull, JBool False, JInt 0, JStr [], JArr [], JObj []}"
  shows "scan_record loads fromtimestamp today all_sessions line = Inr all_sessions \<and>
         todays_records loads fromtimestamp today [line] = [] \<and>
         get_today_sessions loads fromtimestamp today (Some (Opened (pre @ line # post) fails)) =
         get_today_sessions loads fromtimestamp today (Some (Opened (pre @ post) fails))"
proof -
  from assms(2) have "\<not> truthy (get d (str ''timestamp'')) \<or> \<not> truthy (get d (str ''project'')) \<or>
     \<not> truthy (get d (str ''sessionId''))"
    unfolding falsy_iff by blast
  with assms(1) have r: "read_record loads fromtimestamp today line = Inr None"
    by (rule read_record_falsy)
  then have "scan_record loads fromtimestamp today all_sessions line = Inr all_sessions"
    by (rule scan_record_skip)
  moreover from r have "todays_records loads fromtimestamp today [line] = []"
    by (simp add: todays_records_def List.map_filter_simps)
  moreover have "get_today_sessions loads fromtimestamp today (Some (Opened (pre @ line # post) fails)) =
         get_today_sessions loads fromtimestamp today (Some (Opened (pre @ post) fails))"
    by (simp add: get_today_sessions_def scan_history_skip[OF r])
  ultimately show ?thesis by simp
qed

theorem falsy_fields_skipped_witness:
  \<open>sample_loads (strip (str ''{"timestamp":0,"project":"/w/a","sessionId":"s3"}'' @ [10])) =
     Some (history_record 0 (str ''/w/a'') (str ''s3'')) \<and>
   scan_record sample_loads utc_fromtimestamp (2025, 11, 4) []
     (str ''{"timestamp":0,"project":"/w/a","sessionId":"s3"}'' @ [10]) = Inr [] \<and>
   get_today_sessions sample_loads utc_fromtimestamp (2025, 11, 4)
     (Some (Opened ([] @ (str ''{"timestamp":0,"project":"/w/a","sessionId":"s3"}'' @ [10]) # []) False)) =
   get_today_sessions sample_loads utc_fromtimestamp (2025, 11, 4) (Some (Opened ([] @ []) False))\<close>
proof -
  let ?l = \<open>str ''{"timestamp":0,"project":"/w/a","sessionId":"s3"}'' @ [10]\<close>
  let ?d = "[(str ''timestamp'', JInt 0), (str ''project'', JStr (str ''/w/a'')),
             (str ''sessionId'', JStr (str ''s3''))]"
  have h: "sample_loads (strip ?l) = Some (JObj ?d)"
    by (simp add: sample_loads_def user_line_def history_record_def str_def strip_def isspace_def)
  have f: "get ?d (str ''timestamp'') \<in> {JNull, JBool False, JInt 0, JStr [], JArr [], JObj []} \<or>
           get ?d (str ''project'') \<in> {JNull, JBool False, JInt 0, JStr [], JArr [], JObj []} \<or>
           get ?d (str ''sessionId'') \<in> {JNull, JBool False, JInt 0, JStr [], JArr [], JObj []}"
    by (simp add: get_def get_default_def str_def)
  from falsy_fields_skipped [of sample_loads ?l ?d utc_fromtimestamp "(2025, 11, 4)" "[]" "[]" "[]" False] h f
  show ?thesis by (simp add: history_record_def)
qed

subsection \<open>Renderer\<close>







end
